theory Spec2Isabelle
  imports Main
begin

section \<open>The project file tree of the editor page\<close>

text \<open>
  The editor page receives the project tree from the backend as a list of
  \<^verbatim>\<open>BackendNode\<close> values:
  \<^verbatim>\<open>
  interface BackendNode {
    name: string
    path: string
    type: "file" | "dir"
    children?: BackendNode[]
  }
  \<close>
  The field \<^verbatim>\<open>children\<close> is optional on every node, whatever its type, so
  the model keeps it as an optional list on every node.
\<close>

datatype node_type = File | Dir

datatype BackendNode =
  BackendNode (name: string) (path: string) (type: node_type)
    (children: "BackendNode list option")

text \<open>
  \<^verbatim>\<open>
  const findFileInTree = (nodes, targetName) => {
    for (const node of nodes) {
      if (node.type === "file" && (node.name === targetName || node.path === targetName)) {
        return node
      }
      if (node.type === "dir" && node.children) {
        const found = findFileInTree(node.children, targetName)
        if (found) return found
      }
    }
    return null
  }
  \<close>
  The \<^verbatim>\<open>for\<close> loop is the recursion on the list; \<^verbatim>\<open>null\<close> is \<open>None\<close>.
  A node object is always truthy, so \<^verbatim>\<open>if (found)\<close> tests for \<open>Some\<close>.
\<close>

fun findFileInTree :: "BackendNode list \<Rightarrow> string \<Rightarrow> BackendNode option" where
  "findFileInTree [] targetName = None"
| "findFileInTree (BackendNode n p ty ch # rest) targetName =
     (if ty = File \<and> (n = targetName \<or> p = targetName)
      then Some (BackendNode n p ty ch)
      else (case (ty, ch) of
              (Dir, Some cs) \<Rightarrow>
                (case findFileInTree cs targetName of
                   Some found \<Rightarrow> Some found
                 | None \<Rightarrow> findFileInTree rest targetName)
            | _ \<Rightarrow> findFileInTree rest targetName))"

text \<open>The test of the loop body: a file node whose name or path is the target.\<close>

definition matches :: "string \<Rightarrow> BackendNode \<Rightarrow> bool" where
  "matches targetName node \<longleftrightarrow>
     type node = File \<and> (name node = targetName \<or> path node = targetName)"

text \<open>
  Two pre-order listings of a forest. \<open>all_nodes\<close> lists every node of the nested
  structure, following \<^verbatim>\<open>children\<close> wherever it is present. \<open>searched\<close> lists
  the nodes that lie below directory nodes only: it follows \<^verbatim>\<open>children\<close> of a
  node of type \<^verbatim>\<open>"dir"\<close> and of no other node.
\<close>

fun all_nodes :: "BackendNode list \<Rightarrow> BackendNode list" where
  "all_nodes [] = []"
| "all_nodes (BackendNode n p ty ch # rest) =
     BackendNode n p ty ch #
       (case ch of Some cs \<Rightarrow> all_nodes cs | None \<Rightarrow> []) @ all_nodes rest"

fun searched :: "BackendNode list \<Rightarrow> BackendNode list" where
  "searched [] = []"
| "searched (BackendNode n p ty ch # rest) =
     BackendNode n p ty ch #
       (case (ty, ch) of (Dir, Some cs) \<Rightarrow> searched cs | _ \<Rightarrow> []) @ searched rest"

text \<open>
  Forests in which \<^verbatim>\<open>children\<close> is present on directory nodes only, as in a
  listing of a file system.
\<close>

fun files_are_leaves :: "BackendNode list \<Rightarrow> bool" where
  "files_are_leaves [] = True"
| "files_are_leaves (BackendNode n p ty ch # rest) =
     ((case ch of None \<Rightarrow> True | Some cs \<Rightarrow> ty = Dir \<and> files_are_leaves cs)
      \<and> files_are_leaves rest)"


section \<open>Anonymous user identification (\<^verbatim>\<open>lib/user.ts\<close>)\<close>

text \<open>
  \<^verbatim>\<open>localStorage\<close> and \<^verbatim>\<open>sessionStorage\<close> are maps from keys to strings;
  \<^verbatim>\<open>getItem\<close> of a missing key is \<^verbatim>\<open>null\<close>, here \<open>None\<close>.
\<close>

type_synonym storage = "string \<rightharpoonup> string"

text \<open>
  JavaScript truthiness of the result of \<^verbatim>\<open>getItem\<close> and of an optional string
  field: \<^verbatim>\<open>null\<close>, \<^verbatim>\<open>undefined\<close> and the empty string are falsy.
\<close>

fun truthy :: "string option \<Rightarrow> bool" where
  "truthy None = False"
| "truthy (Some v) = (v \<noteq> [])"

text \<open>\<^verbatim>\<open>v || d\<close> for an optional string \<open>v\<close>.\<close>

definition or_else :: "string option \<Rightarrow> string \<Rightarrow> string" where
  "or_else v d = (case v of None \<Rightarrow> d | Some x \<Rightarrow> (if x = [] then d else x))"

definition USER_ID_KEY :: string where
  "USER_ID_KEY = ''botforge_user_id''"

text \<open>
  \<^verbatim>\<open>
  function generateUserId(): string {
    return `user_${Date.now()}_${Math.random().toString(36).substring(2, 15)}`
  }
  \<close>
  The clock and the random number generator are inputs of the model: \<open>now\<close> is the
  decimal text of \<^verbatim>\<open>Date.now()\<close>, \<open>rnd\<close> the text of
  \<^verbatim>\<open>Math.random().toString(36).substring(2, 15)\<close>.
\<close>

definition generateUserId :: "string \<Rightarrow> string \<Rightarrow> string" where
  "generateUserId now rnd = ''user_'' @ now @ ''_'' @ rnd"

text \<open>
  \<^verbatim>\<open>
  export function getUserId(): string {
    if (typeof window === "undefined") { return "" }
    let userId = localStorage.getItem(USER_ID_KEY)
    if (!userId) {
      userId = generateUserId()
      localStorage.setItem(USER_ID_KEY, userId)
      console.log("[UserID] Created new user ID:", userId)
    }
    return userId
  }
  \<close>
  The function takes whether \<^verbatim>\<open>window\<close> is defined, the two inputs of the
  generator and the local storage, and returns the identifier with the storage it
  leaves. \<^verbatim>\<open>!userId\<close> holds for \<^verbatim>\<open>null\<close> and for the empty string. The
  \<^verbatim>\<open>console.log\<close> line changes neither result and is not modelled.
\<close>

definition getUserId :: "bool \<Rightarrow> string \<Rightarrow> string \<Rightarrow> storage \<Rightarrow> string \<times> storage" where
  "getUserId window_defined now rnd localStorage =
     (if \<not> window_defined then ([], localStorage)
      else (let created = (let userId = generateUserId now rnd
                           in (userId, localStorage(USER_ID_KEY \<mapsto> userId)))
            in case localStorage USER_ID_KEY of
                 None \<Rightarrow> created
               | Some userId \<Rightarrow> (if userId = [] then created else (userId, localStorage))))"

text \<open>
  \<^verbatim>\<open>
  export function clearUserId(): void {
    if (typeof window !== "undefined") { localStorage.removeItem(USER_ID_KEY) }
  }
  \<close>
\<close>

definition clearUserId :: "bool \<Rightarrow> storage \<Rightarrow> storage" where
  "clearUserId window_defined localStorage =
     (if window_defined then localStorage(USER_ID_KEY := None) else localStorage)"

text \<open>
  A sequence of calls in one browser, each with its own clock and random inputs, the
  storage handed from one call to the next; the list of the identifiers returned.
\<close>

fun getUserId_calls :: "(string \<times> string) list \<Rightarrow> storage \<Rightarrow> string list" where
  "getUserId_calls [] localStorage = []"
| "getUserId_calls ((now, rnd) # rest) localStorage =
     (case getUserId True now rnd localStorage of
        (userId, localStorage') \<Rightarrow> userId # getUserId_calls rest localStorage')"


section \<open>The editor page: state, backend answers and effects\<close>

text \<open>
  The answer of one \<^verbatim>\<open>fetch\<close> as the handlers see it. \<open>Rejected m\<close>: the
  promise of \<^verbatim>\<open>fetch\<close> or of \<^verbatim>\<open>res.json()\<close> rejects with an error whose
  message is \<open>m\<close> (the backend cannot be reached, the body is not JSON).
  \<open>HttpError detail\<close>: the request is answered with \<^verbatim>\<open>res.ok\<close> false, the body
  carrying an optional \<^verbatim>\<open>detail\<close>. \<open>HttpOk body\<close>: \<^verbatim>\<open>res.ok\<close> is true and
  the body parses to \<open>body\<close>.
\<close>

datatype 'a fetched = Rejected string | HttpError "string option" | HttpOk 'a

text \<open>
  \<^verbatim>\<open>
  interface LogsResponse {
    project_id: string
    logs: string
    status?: "success" | "docker_not_running" | "container_not_running" | "error"
    error?: string
  }
  \<close>
\<close>

datatype logs_status =
  status_success | status_docker_not_running | status_container_not_running | status_error

record LogsResponse =
  project_id :: string
  logs :: string
  status :: "logs_status option"
  error :: "string option"

text \<open>\<^verbatim>\<open>useState<"running" | "not_running" | "unknown">("unknown")\<close>\<close>

datatype docker_status = Docker_running | Docker_not_running | Docker_unknown

text \<open>
  What a handler does to the world outside the component state, in the order it
  happens: requests sent to the backend (method, path after \<^verbatim>\<open>BACKEND_URL\<close>,
  the \<^verbatim>\<open>project_id\<close> sent), \<^verbatim>\<open>alert\<close> boxes, console lines (level and
  arguments, an error object given by its message), the confetti animation
  (\<^verbatim>\<open>particleCount\<close>, \<^verbatim>\<open>spread\<close>) and timers set (what they run, delay in ms).
\<close>

datatype console_level = Console_log | Console_warn | Console_error

datatype effect =
    Request string string string
  | Alert string
  | Console console_level "string list"
  | Confetti nat nat
  | SetTimeout string nat

text \<open>
  The \<^verbatim>\<open>useState\<close> cells of \<^verbatim>\<open>EditorPage\<close> that the lifecycle handlers read
  or write, the page's \<^verbatim>\<open>params.projectId\<close>, the browser's
  \<^verbatim>\<open>sessionStorage\<close>, and the effects so far.
\<close>

record editor =
  params_projectId :: string
  botRunning :: bool
  botLogs :: string
  isStarting :: bool
  isStopping :: bool
  showLogs :: bool
  dockerStatus :: docker_status
  confettiShown :: bool
  sessionStorage :: storage
  effects :: "effect list"

definition emit :: "effect \<Rightarrow> editor \<Rightarrow> editor" where
  "emit e s = s\<lparr>effects := effects s @ [e]\<rparr>"

text \<open>
  The state of the first render: every cell at the initial value given to
  \<^verbatim>\<open>useState\<close>.
\<close>

definition initial_editor :: "string \<Rightarrow> storage \<Rightarrow> editor" where
  "initial_editor pid ss =
     \<lparr>params_projectId = pid, botRunning = False, botLogs = [], isStarting = False,
      isStopping = False, showLogs = False, dockerStatus = Docker_unknown,
      confettiShown = False, sessionStorage = ss, effects = []\<rparr>"

subsection \<open>String search\<close>

text \<open>
  \<^verbatim>\<open>String.prototype.includes\<close>: whether \<open>needle\<close> occurs in \<open>s\<close> as a contiguous
  run of characters. \<open>starts_with\<close> compares the first characters of \<open>s\<close>.
\<close>

fun starts_with :: "string \<Rightarrow> string \<Rightarrow> bool" where
  "starts_with s [] = True"
| "starts_with [] (c # needle) = False"
| "starts_with (d # s) (c # needle) = (d = c \<and> starts_with s needle)"

fun str_includes :: "string \<Rightarrow> string \<Rightarrow> bool" where
  "str_includes [] needle = (needle = [])"
| "str_includes (d # s) needle = (starts_with (d # s) needle \<or> str_includes s needle)"

text \<open>The markers of a successful login that \<^verbatim>\<open>fetchLogs\<close> looks for.\<close>

definition login_marker :: "string \<Rightarrow> bool" where
  "login_marker l \<longleftrightarrow>
     str_includes l ''Bot logged in as:'' \<or> str_includes l ''Bot is online and ready!''"

subsection \<open>Handlers\<close>

text \<open>
  \<^verbatim>\<open>
  export function triggerConfetti({ particleCount = 100, spread = 70 } = {}) {
    confetti({ particleCount, spread, origin: { y: 0.6 } })
  }
  \<close>
\<close>

definition triggerConfetti :: "nat \<Rightarrow> nat \<Rightarrow> editor \<Rightarrow> editor" where
  "triggerConfetti particleCount spread s = emit (Confetti particleCount spread) s"

definition confettiKey :: "editor \<Rightarrow> string" where
  "confettiKey s = ''confetti_'' @ params_projectId s"

text \<open>
  \<^verbatim>\<open>
  const fetchLogs = async () => {
    try {
      const res = await fetch(`${BACKEND_URL}/logs?project_id=${params.projectId}`)
      if (!res.ok) return
      const data: LogsResponse = await res.json()
      if (data.status === "success") {
        const logs = data.logs || ""
        setBotLogs(logs)
        const confettiKey = `confetti_${params.projectId}`
        const hasShownConfetti = sessionStorage.getItem(confettiKey)
        if (!hasShownConfetti && (logs.includes("Bot logged in as:") ||
                                  logs.includes("Bot is online and ready!"))) {
          triggerConfetti({ particleCount: 150, spread: 90 })
          sessionStorage.setItem(confettiKey, 'true')
          setConfettiShown(true)
        }
      } else if (data.status === "docker_not_running") {
        setDockerStatus("not_running")
        setBotLogs("")
      } else if (data.status === "container_not_running") {
        setBotRunning(false)
        setBotLogs("")
      }
    } catch (e) {
      console.error("Failed to fetch logs:", e)
    }
  }
  \<close>
  \<^verbatim>\<open>data.logs\<close> is a string, and \<^verbatim>\<open>data.logs || ""\<close> is that string.
\<close>

definition fetchLogs :: "LogsResponse fetched \<Rightarrow> editor \<Rightarrow> editor" where
  "fetchLogs res s =
     (let s0 = emit (Request ''GET'' ''/logs'' (params_projectId s)) s in
      case res of
        Rejected m \<Rightarrow> emit (Console Console_error [''Failed to fetch logs:'', m]) s0
      | HttpError detail \<Rightarrow> s0
      | HttpOk data \<Rightarrow>
          if status data = Some status_success then
            (let s1 = s0\<lparr>botLogs := logs data\<rparr>;
                 hasShownConfetti = sessionStorage s1 (confettiKey s1)
             in if \<not> truthy hasShownConfetti \<and> login_marker (logs data)
                then (triggerConfetti 150 90 s1)
                       \<lparr>sessionStorage := (sessionStorage s1)(confettiKey s1 \<mapsto> ''true''),
                        confettiShown := True\<rparr>
                else s1)
          else if status data = Some status_docker_not_running then
            s0\<lparr>dockerStatus := Docker_not_running, botLogs := []\<rparr>
          else if status data = Some status_container_not_running then
            s0\<lparr>botRunning := False, botLogs := []\<rparr>
          else s0)"

text \<open>
  \<^verbatim>\<open>
  const checkStatus = async () => {
    try {
      const res = await fetch(`${BACKEND_URL}/logs?project_id=${params.projectId}`)
      if (!res.ok) { setDockerStatus("not_running"); return }
      const data: LogsResponse = await res.json()
      if (data.status === "success") {
        setBotRunning(true)
        setBotLogs(data.logs || "")
      } else if (data.status === "docker_not_running") {
        setDockerStatus("not_running")
      } else {
        setBotRunning(false)
        setDockerStatus("running") // Docker ok, but container not
      }
    } catch (e) {
      setDockerStatus("not_running")
      console.error(e)
    }
  }
  \<close>
\<close>

definition checkStatus :: "LogsResponse fetched \<Rightarrow> editor \<Rightarrow> editor" where
  "checkStatus res s =
     (let s0 = emit (Request ''GET'' ''/logs'' (params_projectId s)) s in
      case res of
        Rejected m \<Rightarrow> emit (Console Console_error [m]) (s0\<lparr>dockerStatus := Docker_not_running\<rparr>)
      | HttpError detail \<Rightarrow> s0\<lparr>dockerStatus := Docker_not_running\<rparr>
      | HttpOk data \<Rightarrow>
          if status data = Some status_success then
            s0\<lparr>botRunning := True, botLogs := logs data\<rparr>
          else if status data = Some status_docker_not_running then
            s0\<lparr>dockerStatus := Docker_not_running\<rparr>
          else s0\<lparr>botRunning := False, dockerStatus := Docker_running\<rparr>)"

text \<open>
  \<^verbatim>\<open>
  const handleStopBot = async () => {
    setIsStopping(true)
    try {
      const res = await fetch(`${BACKEND_URL}/stop`, { method: "POST", ...,
        body: JSON.stringify({ project_id: params.projectId }) })
      if (!res.ok) {
        const data = await res.json()
        throw new Error(data.detail || "Failed to stop bot")
      }
      setBotRunning(false)
      setBotLogs("")
      setConfettiShown(false)
      sessionStorage.removeItem(`confetti_${params.projectId}`)
    } catch (e: any) {
      console.error(e)
      alert(e.message || "Failed to stop bot")
    } finally {
      setIsStopping(false)
    }
  }
  \<close>
  The \<^verbatim>\<open>catch\<close> block is \<open>stop_failed\<close>, given the message of the error caught.
\<close>

definition stop_failed :: "string \<Rightarrow> editor \<Rightarrow> editor" where
  "stop_failed message s =
     emit (Alert (or_else (Some message) ''Failed to stop bot''))
       (emit (Console Console_error [message]) s)"

definition handleStopBot :: "unit fetched \<Rightarrow> editor \<Rightarrow> editor" where
  "handleStopBot res s =
     (let s0 = emit (Request ''POST'' ''/stop'' (params_projectId s)) (s\<lparr>isStopping := True\<rparr>);
          s1 = (case res of
                  Rejected m \<Rightarrow> stop_failed m s0
                | HttpError detail \<Rightarrow> stop_failed (or_else detail ''Failed to stop bot'') s0
                | HttpOk u \<Rightarrow>
                    s0\<lparr>botRunning := False, botLogs := [], confettiShown := False,
                       sessionStorage := (sessionStorage s0)(confettiKey s0 := None)\<rparr>)
      in s1\<lparr>isStopping := False\<rparr>)"

text \<open>
  \<^verbatim>\<open>
  const handleStartBot = async () => {
    if (dockerStatus === "not_running") {
      alert("Docker daemon is not running. Please start Docker Desktop and try again.")
      return
    }
    setIsStarting(true)
    try {
      const res = await fetch(`${BACKEND_URL}/start`, { method: "POST", ...,
        body: JSON.stringify({ project_id: params.projectId }) })
      if (!res.ok) {
        const data = await res.json()
        throw new Error(data.detail || "Failed to start bot")
      }
      const data = await res.json()
      setBotRunning(true)
      setDockerStatus("running")
      setShowLogs(true)
      await fetchLogs()
      const isFirstStart = !sessionStorage.getItem(`bot_${params.projectId}_started`)
      if (isFirstStart) {
        sessionStorage.setItem(`bot_${params.projectId}_started`, 'true')
        setTimeout(async () => { ... POST /fix-syntax-errors ... }, 3000)
      }
    } catch (e: any) {
      console.error(e)
      alert(e.message || "Failed to start bot")
    } finally {
      setIsStarting(false)
    }
  }
  \<close>
  The handler takes the answer to its own request and the answer to the request of
  the \<^verbatim>\<open>fetchLogs\<close> it awaits. \<open>dockerStatus s\<close> is the value the handler's
  closure holds. The body of the timer runs three seconds later and writes the chat
  messages only; the model records that the timer is set.
\<close>

definition docker_down_message :: string where
  "docker_down_message =
     ''Docker daemon is not running. Please start Docker Desktop and try again.''"

definition startedKey :: "editor \<Rightarrow> string" where
  "startedKey s = ''bot_'' @ params_projectId s @ ''_started''"

definition start_failed :: "string \<Rightarrow> editor \<Rightarrow> editor" where
  "start_failed message s =
     emit (Alert (or_else (Some message) ''Failed to start bot''))
       (emit (Console Console_error [message]) s)"

definition handleStartBot :: "unit fetched \<Rightarrow> LogsResponse fetched \<Rightarrow> editor \<Rightarrow> editor" where
  "handleStartBot res logsRes s =
     (if dockerStatus s = Docker_not_running then emit (Alert docker_down_message) s
      else
        (let s0 = emit (Request ''POST'' ''/start'' (params_projectId s)) (s\<lparr>isStarting := True\<rparr>);
             s1 = (case res of
                     Rejected m \<Rightarrow> start_failed m s0
                   | HttpError detail \<Rightarrow> start_failed (or_else detail ''Failed to start bot'') s0
                   | HttpOk u \<Rightarrow>
                       (let s2 = fetchLogs logsRes
                                   (s0\<lparr>botRunning := True, dockerStatus := Docker_running,
                                       showLogs := True\<rparr>);
                            isFirstStart = \<not> truthy (sessionStorage s2 (startedKey s2))
                        in if isFirstStart
                           then emit (SetTimeout ''fix-syntax-errors'' 3000)
                                  (s2\<lparr>sessionStorage := (sessionStorage s2)(startedKey s2 \<mapsto> ''true'')\<rparr>)
                           else s2))
         in s1\<lparr>isStarting := False\<rparr>))"

text \<open>
  The cleanup of the effect that depends on \<^verbatim>\<open>params.projectId\<close> only; React runs
  it when the editor unmounts.
  \<^verbatim>\<open>
  return () => {
    console.log("Editor unmounting: stopping bot container...")
    fetch(`${BACKEND_URL}/stop`, { method: "POST", ...,
      body: JSON.stringify({ project_id: params.projectId })
    }).catch(err => console.warn("Failed to stop container on cleanup:", err))
  }
  \<close>
  The cleanup does not look at the response: \<^verbatim>\<open>.catch\<close> runs when the promise of
  \<^verbatim>\<open>fetch\<close> rejects, and on nothing else.
\<close>

definition unmount_cleanup :: "unit fetched \<Rightarrow> editor \<Rightarrow> editor" where
  "unmount_cleanup res s =
     (let s0 = emit (Request ''POST'' ''/stop'' (params_projectId s))
                 (emit (Console Console_log [''Editor unmounting: stopping bot container...'']) s)
      in case res of
           Rejected m \<Rightarrow> emit (Console Console_warn [''Failed to stop container on cleanup:'', m]) s0
         | HttpError detail \<Rightarrow> s0
         | HttpOk u \<Rightarrow> s0)"

text \<open>
  The lifecycle control of the header:
  \<^verbatim>\<open>
  {!botRunning ? (
    <Button onClick={handleStartBot} disabled={isStarting || dockerStatus === "not_running"}>
  ) : (
    <Button variant="destructive" onClick={handleStopBot} disabled={isStopping}>
  )}
  \<close>
  One button is rendered, with its \<^verbatim>\<open>disabled\<close> flag.
\<close>

datatype lifecycle_button = StartButton bool | StopButton bool

definition render_lifecycle_button :: "editor \<Rightarrow> lifecycle_button" where
  "render_lifecycle_button s =
     (if \<not> botRunning s
      then StartButton (isStarting s \<or> dockerStatus s = Docker_not_running)
      else StopButton (isStopping s))"

text \<open>
  The polling effect runs \<^verbatim>\<open>fetchLogs\<close> every three seconds; \<open>polls\<close> is a
  sequence of such calls, one backend answer each.
\<close>

fun polls :: "LogsResponse fetched list \<Rightarrow> editor \<Rightarrow> editor" where
  "polls [] s = s"
| "polls (res # rest) s = polls rest (fetchLogs res s)"

text \<open>How often the confetti has fired so far.\<close>

fun is_confetti :: "effect \<Rightarrow> bool" where
  "is_confetti (Confetti particleCount spread) = True"
| "is_confetti e = False"

definition fired :: "editor \<Rightarrow> nat" where
  "fired s = length (filter is_confetti (effects s))"

text \<open>An answer to the logs request in which a successful-login marker shows.\<close>

fun shows_marker :: "LogsResponse fetched \<Rightarrow> bool" where
  "shows_marker (HttpOk data) = (status data = Some status_success \<and> login_marker (logs data))"
| "shows_marker res = False"

text \<open>The latch: the flag \<^verbatim>\<open>fetchLogs\<close> reads from \<^verbatim>\<open>sessionStorage\<close>.\<close>

definition latched :: "editor \<Rightarrow> bool" where
  "latched s = truthy (sessionStorage s (confettiKey s))"

text \<open>Console warnings and alert boxes among the effects.\<close>

fun is_warning :: "effect \<Rightarrow> bool" where
  "is_warning (Console Console_warn args) = True"
| "is_warning e = False"

fun is_alert :: "effect \<Rightarrow> bool" where
  "is_alert (Alert message) = True"
| "is_alert e = False"

section \<open>The lifecycle controller of the specification\<close>

text \<open>
  Modelled from the spec: the Lifecycle Controller and the Container Runtime Adapter,
  that is the backend that serves \<^verbatim>\<open>/start\<close>, \<^verbatim>\<open>/stop\<close> and \<^verbatim>\<open>/logs\<close>
  (\<^verbatim>\<open>backend/main.py\<close>), are not among the source files; the editor page above is
  their caller. The definitions of this section follow sections 3, 4.2 and 4.3 of the
  specification.

  A \<^verbatim>\<open>ContainerHandle\<close> has a \<^verbatim>\<open>projectId\<close>, a \<^verbatim>\<open>runtimeId\<close> and a
  \<^verbatim>\<open>state\<close>, one of \<^verbatim>\<open>absent\<close>, \<^verbatim>\<open>building\<close>, \<^verbatim>\<open>running\<close>,
  \<^verbatim>\<open>exited\<close>, \<^verbatim>\<open>failed\<close>.
\<close>

datatype handle_state = Absent | Building | Running | Exited | Failed

record ContainerHandle =
  projectId :: string
  runtimeId :: string
  state :: handle_state

text \<open>The error kinds of sections 4 and 7 that the lifecycle operations return.\<close>

datatype lifecycle_error =
  AlreadyRunningError | EngineDownError | NotRunningError | BuildError string | RuntimeError string

text \<open>
  Modelled from the spec: the container engine behind the Runtime Adapter, as the list
  of the runtime identifiers of its live containers. The name of a project's container
  is derived from the project identifier ("a deterministic, collision-free container
  name derived from the project identifier"); the prefix is the one that
  \<^verbatim>\<open>cleanup-bots.sh\<close> filters on.
\<close>

definition container_name :: "string \<Rightarrow> string" where
  "container_name p = ''bot-'' @ p"

text \<open>
  Modelled from the spec: \<^verbatim>\<open>run\<close> "starts exactly one container per project" and
  "fails fast with \<^verbatim>\<open>AlreadyRunningError\<close>" when the project still has a live
  container; \<^verbatim>\<open>stop\<close> is idempotent, "stopping an already-stopped or unknown
  container is a success". Both fail with \<^verbatim>\<open>EngineDownError\<close> when the engine
  cannot be reached; whether it can is an input.
\<close>

definition adapter_run :: "bool \<Rightarrow> string \<Rightarrow> string list \<Rightarrow> lifecycle_error + string \<times> string list" where
  "adapter_run reachable p containers =
     (if \<not> reachable then Inl EngineDownError
      else if container_name p \<in> set containers then Inl AlreadyRunningError
      else Inr (container_name p, container_name p # containers))"

definition adapter_stop :: "bool \<Rightarrow> string \<Rightarrow> string list \<Rightarrow> lifecycle_error + string list" where
  "adapter_stop reachable rid containers =
     (if \<not> reachable then Inl EngineDownError else Inr (removeAll rid containers))"

text \<open>
  Modelled from the spec: the state of the controller, the handles it has recorded,
  the engine it drives and the \<^verbatim>\<open>LogBuffer\<close> of each running project.
\<close>

record controller =
  handles :: "ContainerHandle list"
  engine :: "string list"
  buffers :: "string \<rightharpoonup> string list"

definition empty_controller :: controller where
  "empty_controller = \<lparr>handles = [], engine = [], buffers = Map.empty\<rparr>"

text \<open>The handles of a project that are in a state other than \<^verbatim>\<open>absent\<close>.\<close>

definition live_handles :: "string \<Rightarrow> controller \<Rightarrow> ContainerHandle list" where
  "live_handles p c = filter (\<lambda>h. projectId h = p \<and> state h \<noteq> Absent) (handles c)"

text \<open>The recorded state of a project: \<^verbatim>\<open>absent\<close> when it has no live handle.\<close>

definition recorded :: "string \<Rightarrow> controller \<Rightarrow> handle_state" where
  "recorded p c = (case live_handles p c of [] \<Rightarrow> Absent | h # hs \<Rightarrow> state h)"

text \<open>A transition of the state machine of project \<open>p\<close>: its live handles move to \<open>st\<close>.\<close>

definition set_state :: "string \<Rightarrow> handle_state \<Rightarrow> controller \<Rightarrow> controller" where
  "set_state p st c =
     c\<lparr>handles := map (\<lambda>h. if projectId h = p \<and> state h \<noteq> Absent then h\<lparr>state := st\<rparr> else h)
                    (handles c)\<rparr>"

text \<open>
  Modelled from the spec, section 4.3: \<^verbatim>\<open>start(projectId)\<close> "rejects with
  \<^verbatim>\<open>AlreadyRunningError\<close> if state is not \<^verbatim>\<open>absent\<close>; rejects with
  \<^verbatim>\<open>EngineDownError\<close> if the runtime is unreachable; otherwise transitions to
  \<^verbatim>\<open>building\<close>, invokes build+run, and on success transitions to \<^verbatim>\<open>running\<close>
  recording the \<^verbatim>\<open>ContainerHandle\<close>; on build/run failure transitions to
  \<^verbatim>\<open>failed\<close> and surfaces the captured error detail". \<open>start_begin\<close> is the
  part up to the transition to \<^verbatim>\<open>building\<close>, \<open>start_finish\<close> the rest; what the
  build and the run of the generated project do is an input.
\<close>

datatype engine_outcome = Succeeds | BuildFails string | RunFails string

definition start_begin :: "bool \<Rightarrow> string \<Rightarrow> controller \<Rightarrow> lifecycle_error + controller" where
  "start_begin reachable p c =
     (if recorded p c \<noteq> Absent then Inl AlreadyRunningError
      else if \<not> reachable then Inl EngineDownError
      else Inr (c\<lparr>handles :=
                    \<lparr>projectId = p, runtimeId = container_name p, state = Building\<rparr> # handles c\<rparr>))"

definition start_finish ::
    "engine_outcome \<Rightarrow> string \<Rightarrow> controller \<Rightarrow> (lifecycle_error + string) \<times> controller" where
  "start_finish outcome p c =
     (case outcome of
        BuildFails output \<Rightarrow> (Inl (BuildError output), set_state p Failed c)
      | RunFails output \<Rightarrow> (Inl (RuntimeError output), set_state p Failed c)
      | Succeeds \<Rightarrow>
          (case adapter_run True p (engine c) of
             Inl e \<Rightarrow> (Inl e, set_state p Failed c)
           | Inr (rid, containers) \<Rightarrow>
               (Inr rid,
                (set_state p Running c)\<lparr>engine := containers, buffers := (buffers c)(p \<mapsto> [])\<rparr>)))"

definition start ::
    "bool \<Rightarrow> engine_outcome \<Rightarrow> string \<Rightarrow> controller \<Rightarrow> (lifecycle_error + string) \<times> controller" where
  "start reachable outcome p c =
     (case start_begin reachable p c of
        Inl e \<Rightarrow> (Inl e, c)
      | Inr c1 \<Rightarrow> start_finish outcome p c1)"

text \<open>
  Modelled from the spec, section 4.3: \<^verbatim>\<open>stop(projectId)\<close> "always attempts the
  underlying stop regardless of recorded state; resets state to \<^verbatim>\<open>absent\<close>; clears
  the \<^verbatim>\<open>LogBuffer\<close>". By section 7 the idempotent stop is one of the paths on which
  the controller swallows the adapter's errors.
\<close>

definition stop :: "bool \<Rightarrow> string \<Rightarrow> controller \<Rightarrow> (lifecycle_error + unit) \<times> controller" where
  "stop reachable p c =
     (let containers = (case adapter_stop reachable (container_name p) (engine c) of
                          Inl e \<Rightarrow> engine c
                        | Inr remaining \<Rightarrow> remaining)
      in (Inr (),
          c\<lparr>handles := map (\<lambda>h. if projectId h = p then h\<lparr>state := Absent\<rparr> else h) (handles c),
            engine := containers,
            buffers := (buffers c)(p := None)\<rparr>))"

text \<open>
  Modelled from the spec, section 4.3: \<^verbatim>\<open>restart\<close> is "\<^verbatim>\<open>stop\<close> followed by
  \<^verbatim>\<open>start\<close>".
\<close>

definition restart ::
    "bool \<Rightarrow> engine_outcome \<Rightarrow> string \<Rightarrow> controller \<Rightarrow> (lifecycle_error + string) \<times> controller" where
  "restart reachable outcome p c = start reachable outcome p (snd (stop reachable p c))"

text \<open>
  Modelled from the spec, section 4.3, orphan detection: on a status query, "if the
  recorded state is \<^verbatim>\<open>running\<close> but the runtime reports the container absent", the
  recorded state is reset to \<^verbatim>\<open>absent\<close>. An engine that cannot be reached reports
  nothing.
\<close>

definition getStatus :: "bool \<Rightarrow> string \<Rightarrow> controller \<Rightarrow> handle_state \<times> controller" where
  "getStatus reachable p c =
     (if reachable \<and> recorded p c = Running \<and> container_name p \<notin> set (engine c)
      then (Absent, set_state p Absent c)
      else (recorded p c, c))"

text \<open>
  What happens without the controller: a container exits or is removed from outside,
  and a running container writes a line that the multiplexer appends to its buffer.
\<close>

definition container_exits :: "string \<Rightarrow> controller \<Rightarrow> controller" where
  "container_exits p c = c\<lparr>engine := removeAll (container_name p) (engine c)\<rparr>"

definition container_writes :: "string \<Rightarrow> string \<Rightarrow> controller \<Rightarrow> controller" where
  "container_writes p line c =
     (case buffers c p of
        None \<Rightarrow> c
      | Some buffered \<Rightarrow> c\<lparr>buffers := (buffers c)(p \<mapsto> buffered @ [line])\<rparr>)"

text \<open>
  The steps of the controller and the events of the containers, in the order in which
  they happen. The controller serialises the lifecycle operations of one project and
  lets the operations of different projects overlap: a start may run as one step
  (\<open>Start\<close>), or as its two halves (\<open>BeginStart\<close>, and \<open>FinishStart\<close> for a
  project that is \<^verbatim>\<open>building\<close>) with steps for other projects in between.
\<close>

datatype request =
    Start bool engine_outcome string
  | BeginStart bool string
  | FinishStart engine_outcome string
  | Stop bool string
  | Restart bool engine_outcome string
  | GetStatus bool string
  | ContainerExits string
  | ContainerWrites string string

fun serve :: "request \<Rightarrow> controller \<Rightarrow> controller" where
  "serve (Start reachable outcome p) c = snd (start reachable outcome p c)"
| "serve (BeginStart reachable p) c =
     (case start_begin reachable p c of Inl e \<Rightarrow> c | Inr c1 \<Rightarrow> c1)"
| "serve (FinishStart outcome p) c =
     (if recorded p c = Building then snd (start_finish outcome p c) else c)"
| "serve (Stop reachable p) c = snd (stop reachable p c)"
| "serve (Restart reachable outcome p) c = snd (restart reachable outcome p c)"
| "serve (GetStatus reachable p) c = snd (getStatus reachable p c)"
| "serve (ContainerExits p) c = container_exits p c"
| "serve (ContainerWrites p line) c = container_writes p line c"

fun serve_all :: "request list \<Rightarrow> controller \<Rightarrow> controller" where
  "serve_all [] c = c"
| "serve_all (r # rs) c = serve_all rs (serve r c)"

section \<open>Properties of the file tree search\<close>

lemma find_append_cases:
  "List.find P (xs @ ys) = (case List.find P xs of None \<Rightarrow> List.find P ys | Some x \<Rightarrow> Some x)"
  by (induction xs) auto

lemma findFileInTree_find:
  "findFileInTree nodes t = List.find (matches t) (searched nodes)"
proof (induction nodes t rule: findFileInTree.induct)
  case (1 targetName)
  show ?case by simp
next
  case (2 n p ty ch rest targetName)
  show ?case
  proof (cases "ty = File \<and> (n = targetName \<or> p = targetName)")
    case True
    then show ?thesis by (simp add: matches_def)
  next
    case False
    then have nm: "\<not> matches targetName (BackendNode n p ty ch)"
      by (simp add: matches_def)
    show ?thesis
    proof (cases ty)
      case File
      with False nm 2 show ?thesis by (simp add: matches_def)
    next
      case Dir
      show ?thesis
      proof (cases ch)
        case None
        with False nm Dir 2 show ?thesis by (simp add: matches_def)
      next
        case (Some cs)
        with False nm Dir 2 show ?thesis
          by (simp add: matches_def find_append_cases split: option.splits)
      qed
    qed
  qed
qed

lemma searched_all_nodes: "files_are_leaves nodes \<Longrightarrow> searched nodes = all_nodes nodes"
  by (induction nodes rule: files_are_leaves.induct) (auto split: option.splits node_type.splits)

lemma find_None_iff_Bex: "(List.find P xs = None) = (\<not> (\<exists>x\<in>set xs. P x))"
  by (induction xs) auto

lemma find_Some_mem: "List.find P xs = Some x \<Longrightarrow> x \<in> set xs \<and> P x"
  by (induction xs) (auto split: if_splits)

text \<open>
  Claim C10, as stated: \<^verbatim>\<open>findFileInTree\<close> returns \<^verbatim>\<open>null\<close> if and only if the
  tree contains no file node matching the target. It fails on a forest in which a
  file node carries \<^verbatim>\<open>children\<close>, which the type \<^verbatim>\<open>BackendNode\<close> allows: the
  file node \<^verbatim>\<open>main.py\<close> below is a node of the tree and matches the target, and the
  search returns \<^verbatim>\<open>null\<close>, since it descends into directory nodes only.
\<close>

theorem findFileInTree_null_iff_counterexample:
  "findFileInTree
     [BackendNode ''notes'' ''notes'' File
        (Some [BackendNode ''main.py'' ''notes/main.py'' File None])] ''main.py'' = None
   \<and> BackendNode ''main.py'' ''notes/main.py'' File None
       \<in> set (all_nodes [BackendNode ''notes'' ''notes'' File
                          (Some [BackendNode ''main.py'' ''notes/main.py'' File None])])
   \<and> matches ''main.py'' (BackendNode ''main.py'' ''notes/main.py'' File None)"
  by (simp add: matches_def)

text \<open>
  Claim C10, amended: \<^verbatim>\<open>findFileInTree\<close> is a depth-first, pre-order search that
  descends into directory nodes only. It returns the first node, in the pre-order
  listing \<open>searched\<close> of the nodes reached through directories, that has type
  \<^verbatim>\<open>"file"\<close> and whose name or path equals the target. It returns \<^verbatim>\<open>null\<close> if
  and only if no node of that listing matches; a node it returns is a file node of the
  listing, never a directory. Where \<^verbatim>\<open>children\<close> is present on directory nodes only,
  the listing is the whole tree.
\<close>

theorem findFileInTree_first_searched:
  "findFileInTree nodes t = List.find (matches t) (searched nodes)
   \<and> (findFileInTree nodes t = None \<longleftrightarrow> \<not> (\<exists>node \<in> set (searched nodes). matches t node))
   \<and> (\<forall>found. findFileInTree nodes t = Some found \<longrightarrow>
         type found = File \<and> found \<in> set (searched nodes) \<and> matches t found)
   \<and> (files_are_leaves nodes \<longrightarrow> searched nodes = all_nodes nodes)"
  using find_Some_mem[of "matches t" "searched nodes"]
  by (auto simp: findFileInTree_find find_None_iff_Bex searched_all_nodes matches_def)

theorem findFileInTree_first_searched_witness:
  "files_are_leaves
     [BackendNode ''src'' ''src'' Dir (Some [BackendNode ''bot.py'' ''src/bot.py'' File None]),
      BackendNode ''bot.py'' ''bot.py'' File None]
   \<and> searched
        [BackendNode ''src'' ''src'' Dir (Some [BackendNode ''bot.py'' ''src/bot.py'' File None]),
         BackendNode ''bot.py'' ''bot.py'' File None]
     = all_nodes
        [BackendNode ''src'' ''src'' Dir (Some [BackendNode ''bot.py'' ''src/bot.py'' File None]),
         BackendNode ''bot.py'' ''bot.py'' File None]
   \<and> findFileInTree
        [BackendNode ''src'' ''src'' Dir (Some [BackendNode ''bot.py'' ''src/bot.py'' File None]),
         BackendNode ''bot.py'' ''bot.py'' File None] ''bot.py''
     = Some (BackendNode ''bot.py'' ''src/bot.py'' File None)
   \<and> type (BackendNode ''bot.py'' ''src/bot.py'' File None) = File
   \<and> BackendNode ''bot.py'' ''src/bot.py'' File None
       \<in> set (searched
        [BackendNode ''src'' ''src'' Dir (Some [BackendNode ''bot.py'' ''src/bot.py'' File None]),
         BackendNode ''bot.py'' ''bot.py'' File None])
   \<and> matches ''bot.py'' (BackendNode ''bot.py'' ''src/bot.py'' File None)"
proof -
  let ?ex = "[BackendNode ''src'' ''src'' Dir (Some [BackendNode ''bot.py'' ''src/bot.py'' File None]),
      BackendNode ''bot.py'' ''bot.py'' File None]"
  have leaves: "files_are_leaves ?ex"
    by simp
  have found: "findFileInTree ?ex ''bot.py'' = Some (BackendNode ''bot.py'' ''src/bot.py'' File None)"
    by simp
  note inst = findFileInTree_first_searched [of ?ex "''bot.py''"]
  have same: "searched ?ex = all_nodes ?ex"
    using inst [THEN conjunct2, THEN conjunct2, THEN conjunct2, THEN mp, OF leaves] .
  have isfile: "type (BackendNode ''bot.py'' ''src/bot.py'' File None) = File
      \<and> BackendNode ''bot.py'' ''src/bot.py'' File None \<in> set (searched ?ex)
      \<and> matches ''bot.py'' (BackendNode ''bot.py'' ''src/bot.py'' File None)"
    using inst [THEN conjunct2, THEN conjunct2, THEN conjunct1, THEN spec, THEN mp, OF found] .
  show ?thesis
    by (intro conjI leaves same found isfile [THEN conjunct1]
          isfile [THEN conjunct2, THEN conjunct1] isfile [THEN conjunct2, THEN conjunct2])
qed

section \<open>Properties of the user identifier\<close>

lemma getUserId_second:
  "getUserId True now' rnd' (snd (getUserId True now rnd ls))
     = (fst (getUserId True now rnd ls), snd (getUserId True now rnd ls))"
  by (auto simp: getUserId_def generateUserId_def Let_def split: option.splits)

lemma getUserId_calls_const:
  "getUserId_calls gens (snd (getUserId True now rnd ls))
     = replicate (length gens) (fst (getUserId True now rnd ls))"
proof (induction gens)
  case Nil
  show ?case by simp
next
  case (Cons g gens)
  obtain n r where g: "g = (n, r)" by (cases g)
  show ?case using Cons.IH by (simp add: g getUserId_second case_prod_beta)
qed

text \<open>
  Claim C9: \<^verbatim>\<open>getUserId\<close> returns the empty string when \<^verbatim>\<open>window\<close> is
  undefined. In a browser, every call of a sequence of calls (nothing else writing the
  storage in between) returns the string the first call returns, whatever the clock and
  the random generator give later: when no
  identifier is stored, the first call generates one and stores it under
  \<^verbatim>\<open>"botforge_user_id"\<close>; after any call the identifier returned is the one stored
  under that key, and a later call returns it and leaves the storage as it is.
\<close>

theorem getUserId_stable:
  "getUserId False now rnd ls = ([], ls)
   \<and> getUserId_calls ((now, rnd) # gens) ls
       = replicate (Suc (length gens)) (fst (getUserId True now rnd ls))
   \<and> (\<not> truthy (ls USER_ID_KEY) \<longrightarrow>
        getUserId True now rnd ls
          = (generateUserId now rnd, ls(USER_ID_KEY \<mapsto> generateUserId now rnd)))
   \<and> snd (getUserId True now rnd ls) USER_ID_KEY = Some (fst (getUserId True now rnd ls))
   \<and> USER_ID_KEY = ''botforge_user_id''
   \<and> getUserId True now' rnd' (snd (getUserId True now rnd ls))
       = (fst (getUserId True now rnd ls), snd (getUserId True now rnd ls))"
proof -
  have a: "getUserId False now rnd ls = ([], ls)"
    by (simp add: getUserId_def)
  have b: "getUserId_calls ((now, rnd) # gens) ls
       = replicate (Suc (length gens)) (fst (getUserId True now rnd ls))"
    using getUserId_calls_const[of gens now rnd ls] by (simp add: case_prod_beta)
  have c: "\<not> truthy (ls USER_ID_KEY) \<longrightarrow>
        getUserId True now rnd ls
          = (generateUserId now rnd, ls(USER_ID_KEY \<mapsto> generateUserId now rnd))"
    by (cases "ls USER_ID_KEY") (auto simp: getUserId_def Let_def)
  have d: "snd (getUserId True now rnd ls) USER_ID_KEY = Some (fst (getUserId True now rnd ls))"
    by (auto simp: getUserId_def Let_def split: option.splits)
  have e: "USER_ID_KEY = ''botforge_user_id''"
    by (simp add: USER_ID_KEY_def)
  show ?thesis
    by (intro conjI a b c d e getUserId_second)
qed

theorem getUserId_stable_witness:
  "\<not> truthy (Map.empty USER_ID_KEY)
   \<and> getUserId True ''1700000000000'' ''k3j9x2'' Map.empty
       = (''user_1700000000000_k3j9x2'',
          [USER_ID_KEY \<mapsto> ''user_1700000000000_k3j9x2''])
   \<and> getUserId_calls [(''1700000000000'', ''k3j9x2''), (''1700000000999'', ''zz81'')] Map.empty
       = [''user_1700000000000_k3j9x2'', ''user_1700000000000_k3j9x2'']"
proof -
  have empty: "\<not> truthy (Map.empty USER_ID_KEY)"
    by simp
  note inst = getUserId_stable
      [of "''1700000000000''" "''k3j9x2''" Map.empty "[(''1700000000999'', ''zz81'')]"]
  have first: "getUserId True ''1700000000000'' ''k3j9x2'' Map.empty
       = (''user_1700000000000_k3j9x2'', [USER_ID_KEY \<mapsto> ''user_1700000000000_k3j9x2''])"
    using inst [THEN conjunct2, THEN conjunct2, THEN conjunct1, THEN mp, OF empty]
    by (simp add: generateUserId_def)
  have calls: "getUserId_calls [(''1700000000000'', ''k3j9x2''), (''1700000000999'', ''zz81'')] Map.empty
       = [''user_1700000000000_k3j9x2'', ''user_1700000000000_k3j9x2'']"
    using inst [THEN conjunct2, THEN conjunct1] by (simp add: first)
  show ?thesis
    by (intro conjI empty first calls)
qed

section \<open>Properties of the readiness latch\<close>

text \<open>
  The search of \<open>str_includes\<close> finds \<open>needle\<close> exactly when the text is some
  characters, then \<open>needle\<close>, then some characters.
\<close>

lemma starts_with_iff: "starts_with s needle \<longleftrightarrow> (\<exists>ss. s = needle @ ss)"
  by (induction s needle rule: starts_with.induct) auto

lemma str_includes_iff: "str_includes s needle \<longleftrightarrow> (\<exists>ps ss. s = ps @ needle @ ss)"
proof (induction s needle rule: str_includes.induct)
  case (1 needle)
  show ?case by auto
next
  case (2 d s needle)
  show ?case
  proof
    assume "str_includes (d # s) needle"
    then consider "starts_with (d # s) needle" | "str_includes s needle" by auto
    then show "\<exists>ps ss. d # s = ps @ needle @ ss"
    proof cases
      case 1
      then obtain ss where "d # s = needle @ ss" by (auto simp: starts_with_iff)
      then have "d # s = [] @ needle @ ss" by simp
      then show ?thesis by blast
    next
      case 2
      with "2.IH" obtain ps ss where "s = ps @ needle @ ss" by auto
      then have "d # s = (d # ps) @ needle @ ss" by simp
      then show ?thesis by blast
    qed
  next
    assume "\<exists>ps ss. d # s = ps @ needle @ ss"
    then obtain ps ss where eq: "d # s = ps @ needle @ ss" by blast
    show "str_includes (d # s) needle"
    proof (cases ps)
      case Nil
      with eq have "starts_with (d # s) needle" by (auto simp: starts_with_iff)
      then show ?thesis by simp
    next
      case (Cons e ps')
      with eq have "s = ps' @ needle @ ss" by simp
      with "2.IH" have "str_includes s needle" by blast
      then show ?thesis by simp
    qed
  qed
qed

lemma fetchLogs_projectId [simp]: "params_projectId (fetchLogs res s) = params_projectId s"
  by (cases res) (simp_all add: fetchLogs_def emit_def triggerConfetti_def Let_def)

lemma confettiKey_fetchLogs [simp]: "confettiKey (fetchLogs res s) = confettiKey s"
  by (simp add: confettiKey_def)

lemma fetchLogs_latched:
  "latched s \<Longrightarrow> latched (fetchLogs res s) \<and> fired (fetchLogs res s) = fired s"
  by (cases res)
     (simp_all add: fetchLogs_def emit_def triggerConfetti_def Let_def latched_def fired_def
        confettiKey_def)

lemma fetchLogs_fires:
  "\<not> latched s \<Longrightarrow> shows_marker res \<Longrightarrow>
     latched (fetchLogs res s) \<and> fired (fetchLogs res s) = Suc (fired s)"
  by (cases res)
     (simp_all add: fetchLogs_def emit_def triggerConfetti_def Let_def latched_def fired_def
        confettiKey_def)

lemma fetchLogs_quiet:
  "\<not> latched s \<Longrightarrow> \<not> shows_marker res \<Longrightarrow>
     \<not> latched (fetchLogs res s) \<and> fired (fetchLogs res s) = fired s"
  by (cases res)
     (simp_all add: fetchLogs_def emit_def triggerConfetti_def Let_def latched_def fired_def
        confettiKey_def)

lemma polls_latched: "latched s \<Longrightarrow> fired (polls rs s) = fired s"
proof (induction rs arbitrary: s)
  case Nil
  show ?case by simp
next
  case (Cons r rs)
  from Cons.prems have "latched (fetchLogs r s)" "fired (fetchLogs r s) = fired s"
    using fetchLogs_latched by blast+
  with Cons.IH [of "fetchLogs r s"] show ?case by simp
qed

lemma polls_armed:
  "\<not> latched s \<Longrightarrow> fired (polls rs s) = fired s + (if list_ex shows_marker rs then 1 else 0)"
proof (induction rs arbitrary: s)
  case Nil
  show ?case by simp
next
  case (Cons r rs)
  show ?case
  proof (cases "shows_marker r")
    case True
    with Cons.prems have "latched (fetchLogs r s)" "fired (fetchLogs r s) = Suc (fired s)"
      using fetchLogs_fires by blast+
    with True polls_latched [of "fetchLogs r s" rs] show ?thesis by simp
  next
    case False
    with Cons.prems have "\<not> latched (fetchLogs r s)" "fired (fetchLogs r s) = fired s"
      using fetchLogs_quiet by blast+
    with False Cons.IH [of "fetchLogs r s"] show ?thesis by simp
  qed
qed

lemma handleStopBot_rearms:
  "\<not> latched (handleStopBot (HttpOk u) s) \<and> fired (handleStopBot (HttpOk u) s) = fired s"
  by (simp add: handleStopBot_def emit_def Let_def latched_def fired_def confettiKey_def)

lemma handleStartBot_new_run:
  assumes "dockerStatus s \<noteq> Docker_not_running" and "\<not> latched s"
  shows "latched (handleStartBot (HttpOk v) logsRes s) = shows_marker logsRes
     \<and> fired (handleStartBot (HttpOk v) logsRes s)
         = fired s + (if shows_marker logsRes then 1 else 0)"
  using assms
  by (cases logsRes)
     (simp_all add: handleStartBot_def fetchLogs_def emit_def triggerConfetti_def Let_def
        latched_def fired_def confettiKey_def startedKey_def)

lemma handleStartBot_run_fires_once:
  assumes "dockerStatus s \<noteq> Docker_not_running" and "\<not> latched s"
  shows "fired (polls rs (handleStartBot (HttpOk v) logsRes s))
           = fired s + (if list_ex shows_marker (logsRes # rs) then 1 else 0)"
proof (cases "shows_marker logsRes")
  case True
  with handleStartBot_new_run [OF assms, of v logsRes]
  have "latched (handleStartBot (HttpOk v) logsRes s)"
    and "fired (handleStartBot (HttpOk v) logsRes s) = fired s + 1" by simp_all
  with True polls_latched [of "handleStartBot (HttpOk v) logsRes s" rs] show ?thesis by simp
next
  case False
  with handleStartBot_new_run [OF assms, of v logsRes]
  have "\<not> latched (handleStartBot (HttpOk v) logsRes s)"
    and "fired (handleStartBot (HttpOk v) logsRes s) = fired s" by simp_all
  with False polls_armed [of "handleStartBot (HttpOk v) logsRes s" rs] show ?thesis by simp
qed

lemma restart_fires_once:
  assumes "dockerStatus s \<noteq> Docker_not_running"
  shows "fired (polls rs (handleStartBot (HttpOk v) logsRes (handleStopBot (HttpOk u) s)))
           = fired s + (if list_ex shows_marker (logsRes # rs) then 1 else 0)"
proof -
  have d: "dockerStatus (handleStopBot (HttpOk u) s) \<noteq> Docker_not_running"
    using assms by (simp add: handleStopBot_def emit_def Let_def)
  from handleStartBot_run_fires_once [OF d, of rs v logsRes] handleStopBot_rearms [of u s]
  show ?thesis by simp
qed

text \<open>
  What the latch does. A poll in which a marker shows leaves the latch set, and no
  later poll fires, whatever the backend answers. With the latch set a sequence of
  polls fires nothing; with the latch open it fires once if a marker shows in some poll
  and not at all otherwise. A stop that the backend accepts opens the latch without
  firing, and the run that follows it fires once if a marker shows in one of its
  queries.
\<close>

lemma latch_fires_once:
  "(shows_marker res \<longrightarrow>
      latched (fetchLogs res s) \<and> fired (polls rs (fetchLogs res s)) = fired (fetchLogs res s))
   \<and> (latched s \<longrightarrow> fired (polls rs s) = fired s)
   \<and> (\<not> latched s \<longrightarrow>
        fired (polls rs s) = fired s + (if list_ex shows_marker rs then 1 else 0))
   \<and> \<not> latched (handleStopBot (HttpOk u) s)
   \<and> fired (handleStopBot (HttpOk u) s) = fired s
   \<and> (dockerStatus s \<noteq> Docker_not_running \<longrightarrow>
        fired (polls rs (handleStartBot (HttpOk v) logsRes (handleStopBot (HttpOk u) s)))
          = fired s + (if list_ex shows_marker (logsRes # rs) then 1 else 0))"
proof -
  have a: "shows_marker res \<longrightarrow>
      latched (fetchLogs res s) \<and> fired (polls rs (fetchLogs res s)) = fired (fetchLogs res s)"
  proof
    assume m: "shows_marker res"
    have "latched (fetchLogs res s)"
      using m fetchLogs_fires [of s res] fetchLogs_latched [of s res] by blast
    then show "latched (fetchLogs res s) \<and> fired (polls rs (fetchLogs res s)) = fired (fetchLogs res s)"
      using polls_latched by blast
  qed
  have b: "latched s \<longrightarrow> fired (polls rs s) = fired s"
    using polls_latched by blast
  have c: "\<not> latched s \<longrightarrow>
        fired (polls rs s) = fired s + (if list_ex shows_marker rs then 1 else 0)"
    using polls_armed by blast
  have d: "\<not> latched (handleStopBot (HttpOk u) s)"
    and e: "fired (handleStopBot (HttpOk u) s) = fired s"
    using handleStopBot_rearms by blast+
  have f: "dockerStatus s \<noteq> Docker_not_running \<longrightarrow>
        fired (polls rs (handleStartBot (HttpOk v) logsRes (handleStopBot (HttpOk u) s)))
          = fired s + (if list_ex shows_marker (logsRes # rs) then 1 else 0)"
    using restart_fires_once by blast
  show ?thesis
    by (intro conjI a b c d e f)
qed

lemma handleStartBot_latched:
  "latched s \<Longrightarrow>
     latched (handleStartBot res logsRes s) \<and> fired (handleStartBot res logsRes s) = fired s"
  by (cases res; cases logsRes)
     (simp_all add: handleStartBot_def start_failed_def fetchLogs_def emit_def
        triggerConfetti_def Let_def latched_def fired_def confettiKey_def startedKey_def)

lemma handleStartBot_docker_running:
  "dockerStatus s \<noteq> Docker_not_running \<Longrightarrow> shows_marker logsRes \<Longrightarrow>
     dockerStatus (handleStartBot (HttpOk v) logsRes s) = Docker_running"
  by (cases logsRes)
     (simp_all add: handleStartBot_def fetchLogs_def emit_def triggerConfetti_def Let_def)

lemma fetchLogs_container_gone:
  "status data = Some status_container_not_running \<Longrightarrow>
     \<not> botRunning (fetchLogs (HttpOk data) s)"
  by (simp add: fetchLogs_def emit_def Let_def)

text \<open>
  Claim C2: the readiness signal fires exactly once per run, and stopping the bot
  re-arms the latch so that a new run can fire it again. The code departs from the
  claim when a run ends without \<^verbatim>\<open>handleStopBot\<close>. \<^verbatim>\<open>handleStopBot\<close> removes
  the key of the latch from the session storage (its comment: "Clear sessionStorage so
  confetti can trigger again"); the branch of \<^verbatim>\<open>fetchLogs\<close> that resets the
  running flag when the container is gone does not. Below, the first run of project
  \<^verbatim>\<open>proj-1\<close> fires once; a poll answered \<^verbatim>\<open>"container_not_running"\<close> ends it;
  the second run shows the marker in the logs query of its start and in a poll, and
  fires nothing: the count stays at one. After \<^verbatim>\<open>handleStopBot\<close> in place of that
  poll, the same second run fires and the count is two.
\<close>

theorem readiness_not_rearmed_by_self_heal:
  "fired (handleStartBot (HttpOk ())
       (HttpOk \<lparr>project_id = ''proj-1'', logs = ''Bot is online and ready!'',
                 status = Some status_success, error = None\<rparr>)
       (initial_editor ''proj-1'' Map.empty)) = 1
   \<and> \<not> botRunning
        (fetchLogs
           (HttpOk \<lparr>project_id = ''proj-1'', logs = [],
                     status = Some status_container_not_running, error = None\<rparr>)
           (handleStartBot (HttpOk ())
              (HttpOk \<lparr>project_id = ''proj-1'', logs = ''Bot is online and ready!'',
                        status = Some status_success, error = None\<rparr>)
              (initial_editor ''proj-1'' Map.empty)))
   \<and> fired
        (polls
           [HttpOk \<lparr>project_id = ''proj-1'', logs = ''Bot is online and ready!'',
                     status = Some status_success, error = None\<rparr>]
           (handleStartBot (HttpOk ())
              (HttpOk \<lparr>project_id = ''proj-1'', logs = ''Bot is online and ready!'',
                        status = Some status_success, error = None\<rparr>)
              (fetchLogs
                 (HttpOk \<lparr>project_id = ''proj-1'', logs = [],
                           status = Some status_container_not_running, error = None\<rparr>)
                 (handleStartBot (HttpOk ())
                    (HttpOk \<lparr>project_id = ''proj-1'', logs = ''Bot is online and ready!'',
                              status = Some status_success, error = None\<rparr>)
                    (initial_editor ''proj-1'' Map.empty))))) = 1
   \<and> fired
        (polls
           [HttpOk \<lparr>project_id = ''proj-1'', logs = ''Bot is online and ready!'',
                     status = Some status_success, error = None\<rparr>]
           (handleStartBot (HttpOk ())
              (HttpOk \<lparr>project_id = ''proj-1'', logs = ''Bot is online and ready!'',
                        status = Some status_success, error = None\<rparr>)
              (handleStopBot (HttpOk ())
                 (handleStartBot (HttpOk ())
                    (HttpOk \<lparr>project_id = ''proj-1'', logs = ''Bot is online and ready!'',
                              status = Some status_success, error = None\<rparr>)
                    (initial_editor ''proj-1'' Map.empty))))) = 2"
proof -
  let ?s0 = "initial_editor ''proj-1'' Map.empty"
  let ?ready = "HttpOk \<lparr>project_id = ''proj-1'', logs = ''Bot is online and ready!'',
                 status = Some status_success, error = None\<rparr>"
  let ?gone = "\<lparr>project_id = ''proj-1'', logs = [],
                     status = Some status_container_not_running, error = None\<rparr>"
  let ?run1 = "handleStartBot (HttpOk ()) ?ready ?s0"
  let ?healed = "fetchLogs (HttpOk ?gone) ?run1"
  have marker: "shows_marker ?ready"
    by (simp add: login_marker_def)
  have open_latch: "\<not> latched ?s0"
    by (simp add: latched_def initial_editor_def)
  have docker0: "dockerStatus ?s0 \<noteq> Docker_not_running"
    by (simp add: initial_editor_def)
  have zero: "fired ?s0 = 0"
    by (simp add: fired_def initial_editor_def)
  from handleStartBot_new_run [OF docker0 open_latch, of "()" ?ready] marker zero
  have latched1: "latched ?run1" and fired1: "fired ?run1 = 1"
    by simp_all
  have gone: "status ?gone = Some status_container_not_running"
    by simp
  have stopped: "\<not> botRunning ?healed"
    using gone by (rule fetchLogs_container_gone)
  from fetchLogs_latched [OF latched1, of "HttpOk ?gone"] fired1
  have latched2: "latched ?healed" and fired2: "fired ?healed = 1"
    by simp_all
  from handleStartBot_latched [OF latched2, of "HttpOk ()" ?ready] fired2
  have latched3: "latched (handleStartBot (HttpOk ()) ?ready ?healed)"
    and fired3: "fired (handleStartBot (HttpOk ()) ?ready ?healed) = 1"
    by simp_all
  have run2: "fired (polls [?ready] (handleStartBot (HttpOk ()) ?ready ?healed)) = 1"
    using polls_latched [OF latched3, of "[?ready]"] fired3 by simp
  have docker1: "dockerStatus ?run1 \<noteq> Docker_not_running"
    using handleStartBot_docker_running [OF docker0 marker, of "()"] by simp
  have after_stop: "fired (polls [?ready]
        (handleStartBot (HttpOk ()) ?ready (handleStopBot (HttpOk ()) ?run1))) = 2"
    using restart_fires_once [OF docker1, of "[?ready]" "()" ?ready "()"] marker fired1
    by simp
  show ?thesis
    by (intro conjI fired1 stopped run2 after_stop)
qed

section \<open>Properties of the unmount cleanup\<close>

text \<open>
  The effects of the cleanup for each answer: a console line, one stop request for the
  project, and a console warning when the request is rejected. It writes no cell of the
  page's state and shows no alert.
\<close>

lemma unmount_cleanup_effects:
  "unmount_cleanup res s =
     s\<lparr>effects := effects s @
          [Console Console_log [''Editor unmounting: stopping bot container...''],
           Request ''POST'' ''/stop'' (params_projectId s)] @
          (case res of
             Rejected m \<Rightarrow> [Console Console_warn [''Failed to stop container on cleanup:'', m]]
           | HttpError detail \<Rightarrow> []
           | HttpOk u \<Rightarrow> [])\<rparr>"
  by (cases res) (simp_all add: unmount_cleanup_def emit_def Let_def)

text \<open>
  Claim C3: the cleanup run when the editor unmounts issues a best-effort stop, and any
  failure of that stop is logged and swallowed. The cleanup sends the stop and raises
  nothing, and it logs a request that is rejected. The code departs from the claim
  where the backend answers the stop with an error status (\<^verbatim>\<open>res.ok\<close> false):
  \<^verbatim>\<open>fetch\<close> does not reject on such an answer, so the \<^verbatim>\<open>.catch\<close> that writes
  \<^verbatim>\<open>"Failed to stop container on cleanup:"\<close> does not run and the failed stop is not
  logged. Below, the cleanup of project \<^verbatim>\<open>proj-1\<close> gets such an answer: it writes
  no warning, its only console line being the one written before the request.
  \<^verbatim>\<open>handleStopBot\<close> tests \<^verbatim>\<open>res.ok\<close> and reports the same answer as a failed
  stop.
\<close>

theorem unmount_cleanup_http_error_not_logged:
  "filter is_warning
     (effects (unmount_cleanup (HttpError (Some ''Docker daemon is not running''))
        (initial_editor ''proj-1'' Map.empty))) = []
   \<and> effects (unmount_cleanup (HttpError (Some ''Docker daemon is not running''))
        (initial_editor ''proj-1'' Map.empty))
     = [Console Console_log [''Editor unmounting: stopping bot container...''],
        Request ''POST'' ''/stop'' ''proj-1'']
   \<and> filter is_alert
        (effects (handleStopBot (HttpError (Some ''Docker daemon is not running''))
           (initial_editor ''proj-1'' Map.empty)))
     = [Alert ''Docker daemon is not running'']"
  by (simp add: unmount_cleanup_def handleStopBot_def stop_failed_def or_else_def emit_def
        initial_editor_def Let_def)

section \<open>Properties of the logs answers\<close>

text \<open>
  Claim C4, as stated: every result of the logs operation is one of exactly three
  outcomes. \<^verbatim>\<open>LogsResponse\<close> has a fourth status, \<^verbatim>\<open>"error"\<close>: the answer
  below is none of the three, and \<^verbatim>\<open>fetchLogs\<close> takes none of the three paths on
  it (the logs shown, the running flag and the Docker status stay as they were).
\<close>

theorem logs_status_error_counterexample:
  "status \<lparr>project_id = ''proj-1'', logs = ''boot'', status = Some status_error,
            error = Some ''inspect failed''\<rparr> \<noteq> Some status_success
   \<and> status \<lparr>project_id = ''proj-1'', logs = ''boot'', status = Some status_error,
            error = Some ''inspect failed''\<rparr> \<noteq> Some status_docker_not_running
   \<and> status \<lparr>project_id = ''proj-1'', logs = ''boot'', status = Some status_error,
            error = Some ''inspect failed''\<rparr> \<noteq> Some status_container_not_running
   \<and> fetchLogs
        (HttpOk \<lparr>project_id = ''proj-1'', logs = ''boot'', status = Some status_error,
                  error = Some ''inspect failed''\<rparr>)
        ((initial_editor ''proj-1'' Map.empty)
           \<lparr>botRunning := True, dockerStatus := Docker_running, botLogs := ''old''\<rparr>)
      = (initial_editor ''proj-1'' Map.empty)
           \<lparr>botRunning := True, dockerStatus := Docker_running, botLogs := ''old'',
            effects := [Request ''GET'' ''/logs'' ''proj-1'']\<rparr>"
  by (simp add: fetchLogs_def emit_def initial_editor_def Let_def)

text \<open>
  Claim C4, amended: an answer to the logs request carries one of four statuses
  (success, Docker not running, container not running, error) or none.
  \<^verbatim>\<open>fetchLogs\<close> handles the first three on three paths: on success it shows the
  logs of the answer and leaves the running flag and the Docker status; on Docker not
  running it sets the Docker status to not running and clears the logs; on container
  not running it resets the running flag and clears the logs. On the status error, or
  without a status, it changes nothing. While the page polls (bot running, Docker
  status running) the three paths end in three different states.
\<close>

theorem fetchLogs_outcomes:
  "(status data = Some status_success \<longrightarrow>
      botLogs (fetchLogs (HttpOk data) s) = logs data
      \<and> botRunning (fetchLogs (HttpOk data) s) = botRunning s
      \<and> dockerStatus (fetchLogs (HttpOk data) s) = dockerStatus s)
   \<and> (status data = Some status_docker_not_running \<longrightarrow>
        fetchLogs (HttpOk data) s
          = s\<lparr>dockerStatus := Docker_not_running, botLogs := [],
               effects := effects s @ [Request ''GET'' ''/logs'' (params_projectId s)]\<rparr>)
   \<and> (status data = Some status_container_not_running \<longrightarrow>
        fetchLogs (HttpOk data) s
          = s\<lparr>botRunning := False, botLogs := [],
               effects := effects s @ [Request ''GET'' ''/logs'' (params_projectId s)]\<rparr>)
   \<and> (status data = Some status_error \<or> status data = None \<longrightarrow>
        fetchLogs (HttpOk data) s
          = s\<lparr>effects := effects s @ [Request ''GET'' ''/logs'' (params_projectId s)]\<rparr>)
   \<and> (botRunning s \<and> dockerStatus s = Docker_running
        \<and> status d1 = Some status_success
        \<and> status d2 = Some status_docker_not_running
        \<and> status d3 = Some status_container_not_running \<longrightarrow>
          fetchLogs (HttpOk d1) s \<noteq> fetchLogs (HttpOk d2) s
          \<and> fetchLogs (HttpOk d2) s \<noteq> fetchLogs (HttpOk d3) s
          \<and> fetchLogs (HttpOk d1) s \<noteq> fetchLogs (HttpOk d3) s)"
proof -
  have a: "status data = Some status_success \<longrightarrow>
      botLogs (fetchLogs (HttpOk data) s) = logs data
      \<and> botRunning (fetchLogs (HttpOk data) s) = botRunning s
      \<and> dockerStatus (fetchLogs (HttpOk data) s) = dockerStatus s" for data
    by (simp add: fetchLogs_def triggerConfetti_def emit_def Let_def)
  have b: "status data = Some status_docker_not_running \<longrightarrow>
        fetchLogs (HttpOk data) s
          = s\<lparr>dockerStatus := Docker_not_running, botLogs := [],
               effects := effects s @ [Request ''GET'' ''/logs'' (params_projectId s)]\<rparr>" for data
    by (simp add: fetchLogs_def emit_def Let_def)
  have c: "status data = Some status_container_not_running \<longrightarrow>
        fetchLogs (HttpOk data) s
          = s\<lparr>botRunning := False, botLogs := [],
               effects := effects s @ [Request ''GET'' ''/logs'' (params_projectId s)]\<rparr>" for data
    by (simp add: fetchLogs_def emit_def Let_def)
  have d: "status data = Some status_error \<or> status data = None \<longrightarrow>
        fetchLogs (HttpOk data) s
          = s\<lparr>effects := effects s @ [Request ''GET'' ''/logs'' (params_projectId s)]\<rparr>"
    by (auto simp: fetchLogs_def emit_def Let_def)
  have e: "botRunning s \<and> dockerStatus s = Docker_running
        \<and> status d1 = Some status_success
        \<and> status d2 = Some status_docker_not_running
        \<and> status d3 = Some status_container_not_running \<longrightarrow>
          fetchLogs (HttpOk d1) s \<noteq> fetchLogs (HttpOk d2) s
          \<and> fetchLogs (HttpOk d2) s \<noteq> fetchLogs (HttpOk d3) s
          \<and> fetchLogs (HttpOk d1) s \<noteq> fetchLogs (HttpOk d3) s"
  proof
    assume h: "botRunning s \<and> dockerStatus s = Docker_running
        \<and> status d1 = Some status_success
        \<and> status d2 = Some status_docker_not_running
        \<and> status d3 = Some status_container_not_running"
    from h a [of d1] have s1: "dockerStatus (fetchLogs (HttpOk d1) s) = Docker_running"
      and r1: "botRunning (fetchLogs (HttpOk d1) s)" by simp_all
    from h b [of d2] have s2: "dockerStatus (fetchLogs (HttpOk d2) s) = Docker_not_running"
      by simp
    from h c [of d3] have s3: "dockerStatus (fetchLogs (HttpOk d3) s) = Docker_running"
      and r3: "\<not> botRunning (fetchLogs (HttpOk d3) s)" by simp_all
    have "fetchLogs (HttpOk d1) s \<noteq> fetchLogs (HttpOk d2) s"
      using s1 s2 by auto
    moreover have "fetchLogs (HttpOk d2) s \<noteq> fetchLogs (HttpOk d3) s"
      using s2 s3 by auto
    moreover have "fetchLogs (HttpOk d1) s \<noteq> fetchLogs (HttpOk d3) s"
      using r1 r3 by auto
    ultimately show "fetchLogs (HttpOk d1) s \<noteq> fetchLogs (HttpOk d2) s
          \<and> fetchLogs (HttpOk d2) s \<noteq> fetchLogs (HttpOk d3) s
          \<and> fetchLogs (HttpOk d1) s \<noteq> fetchLogs (HttpOk d3) s" by blast
  qed

  show ?thesis
    by (intro conjI a b c d e)
qed

theorem fetchLogs_outcomes_witness:
  "fetchLogs
     (HttpOk \<lparr>project_id = ''proj-1'', logs = ''starting'', status = Some status_success,
               error = None\<rparr>)
     ((initial_editor ''proj-1'' Map.empty)\<lparr>botRunning := True, dockerStatus := Docker_running\<rparr>)
   \<noteq> fetchLogs
     (HttpOk \<lparr>project_id = ''proj-1'', logs = [], status = Some status_docker_not_running,
               error = None\<rparr>)
     ((initial_editor ''proj-1'' Map.empty)\<lparr>botRunning := True, dockerStatus := Docker_running\<rparr>)
   \<and> fetchLogs
     (HttpOk \<lparr>project_id = ''proj-1'', logs = [], status = Some status_container_not_running,
               error = None\<rparr>)
     ((initial_editor ''proj-1'' Map.empty)\<lparr>botRunning := True, dockerStatus := Docker_running\<rparr>)
   = (initial_editor ''proj-1'' Map.empty)
       \<lparr>botRunning := False, dockerStatus := Docker_running,
        effects := [Request ''GET'' ''/logs'' ''proj-1'']\<rparr>"
proof -
  let ?s0 = "(initial_editor ''proj-1'' Map.empty)\<lparr>botRunning := True, dockerStatus := Docker_running\<rparr>"
  let ?d1 = "\<lparr>project_id = ''proj-1'', logs = ''starting'', status = Some status_success,
               error = None\<rparr>"
  let ?d2 = "\<lparr>project_id = ''proj-1'', logs = [], status = Some status_docker_not_running,
               error = None\<rparr>"
  let ?d3 = "\<lparr>project_id = ''proj-1'', logs = [], status = Some status_container_not_running,
               error = None\<rparr>"
  note inst = fetchLogs_outcomes [of ?d3 ?s0 ?d1 ?d2 ?d3]
  have h: "botRunning ?s0 \<and> dockerStatus ?s0 = Docker_running
        \<and> status ?d1 = Some status_success
        \<and> status ?d2 = Some status_docker_not_running
        \<and> status ?d3 = Some status_container_not_running"
    by simp
  have differ: "fetchLogs (HttpOk ?d1) ?s0 \<noteq> fetchLogs (HttpOk ?d2) ?s0"
    using inst [THEN conjunct2, THEN conjunct2, THEN conjunct2, THEN conjunct2, THEN mp, OF h]
    by (rule conjunct1)
  have st: "status ?d3 = Some status_container_not_running"
    by simp
  have reset: "fetchLogs (HttpOk ?d3) ?s0
      = (initial_editor ''proj-1'' Map.empty)
          \<lparr>botRunning := False, dockerStatus := Docker_running,
           effects := [Request ''GET'' ''/logs'' ''proj-1'']\<rparr>"
    using inst [THEN conjunct2, THEN conjunct2, THEN conjunct1, THEN mp, OF st]
    by (simp add: initial_editor_def)
  show ?thesis
    by (intro conjI differ reset)
qed

section \<open>Properties of start, stop and the status check\<close>

text \<open>
  Claim C6: when the page records the bot as running and a logs query
  (\<^verbatim>\<open>fetchLogs\<close>) or the status check (\<^verbatim>\<open>checkStatus\<close>) is answered with
  \<^verbatim>\<open>"container_not_running"\<close>, the running flag is reset, and the header offers
  the start button again.
\<close>

theorem orphan_self_heal:
  "botRunning s \<Longrightarrow> status data = Some status_container_not_running \<Longrightarrow>
     \<not> botRunning (fetchLogs (HttpOk data) s) \<and> \<not> botRunning (checkStatus (HttpOk data) s)
     \<and> render_lifecycle_button (fetchLogs (HttpOk data) s)
         = StartButton (isStarting s \<or> dockerStatus s = Docker_not_running)
     \<and> render_lifecycle_button (checkStatus (HttpOk data) s) = StartButton (isStarting s)"
  by (simp add: fetchLogs_def checkStatus_def emit_def Let_def render_lifecycle_button_def)

theorem orphan_self_heal_witness:
  "botRunning ((initial_editor ''proj-1'' Map.empty)\<lparr>botRunning := True\<rparr>)
   \<and> \<not> botRunning
        (fetchLogs
           (HttpOk \<lparr>project_id = ''proj-1'', logs = [],
                     status = Some status_container_not_running, error = None\<rparr>)
           ((initial_editor ''proj-1'' Map.empty)\<lparr>botRunning := True\<rparr>))
   \<and> \<not> botRunning
        (checkStatus
           (HttpOk \<lparr>project_id = ''proj-1'', logs = [],
                     status = Some status_container_not_running, error = None\<rparr>)
           ((initial_editor ''proj-1'' Map.empty)\<lparr>botRunning := True\<rparr>))"
proof -
  let ?s0 = "(initial_editor ''proj-1'' Map.empty)\<lparr>botRunning := True\<rparr>"
  let ?gone = "\<lparr>project_id = ''proj-1'', logs = [],
                     status = Some status_container_not_running, error = None\<rparr>"
  have up: "botRunning ?s0"
    by simp
  have st: "status ?gone = Some status_container_not_running"
    by simp
  note inst = orphan_self_heal [OF up st]
  show ?thesis
    by (intro conjI up inst [THEN conjunct1] inst [THEN conjunct2, THEN conjunct1])
qed

text \<open>
  Claim C8: a stop that the backend accepts leaves the displayed logs empty. After a
  start that follows it, the displayed logs are the logs of the answer to the logs
  query of that start when the start went through and the query succeeded, and empty
  otherwise: nothing displayed before the stop is carried over.
\<close>

theorem stop_discards_logs:
  "botLogs (handleStopBot (HttpOk u) s) = []
   \<and> botLogs (handleStartBot res logsRes (handleStopBot (HttpOk u) s))
       = (case (res, logsRes) of
            (HttpOk v, HttpOk data) \<Rightarrow>
              (if dockerStatus s \<noteq> Docker_not_running \<and> status data = Some status_success
               then logs data else [])
          | _ \<Rightarrow> [])"
proof -
  have a: "botLogs (handleStopBot (HttpOk u) s) = []"
    by (simp add: handleStopBot_def emit_def Let_def)
  have d: "dockerStatus (handleStopBot (HttpOk u) s) = dockerStatus s"
    by (simp add: handleStopBot_def emit_def Let_def)
  have b: "botLogs s' = [] \<Longrightarrow> botLogs (handleStartBot res logsRes s')
       = (case (res, logsRes) of
            (HttpOk v, HttpOk data) \<Rightarrow>
              (if dockerStatus s' \<noteq> Docker_not_running \<and> status data = Some status_success
               then logs data else [])
          | _ \<Rightarrow> [])" for s'
    by (cases res; cases logsRes)
       (simp_all add: handleStartBot_def start_failed_def fetchLogs_def triggerConfetti_def
          emit_def Let_def)
  show ?thesis
    unfolding b [OF a] d using a by simp
qed

section \<open>Properties of the lifecycle controller\<close>

lemma recorded_Absent_iff: "recorded p c = Absent \<longleftrightarrow> live_handles p c = []"
proof (cases "live_handles p c")
  case Nil
  then show ?thesis by (simp add: recorded_def)
next
  case (Cons h hs)
  then have "h \<in> set (live_handles p c)" by simp
  then have "state h \<noteq> Absent" by (simp add: live_handles_def)
  with Cons show ?thesis by (simp add: recorded_def)
qed

lemma live_handles_set_state:
  "length (live_handles q (set_state p st c)) \<le> length (live_handles q c)"
proof -
  have "length (filter (\<lambda>h. projectId h = q \<and> state h \<noteq> Absent)
          (map (\<lambda>h. if projectId h = p \<and> state h \<noteq> Absent then h\<lparr>state := st\<rparr> else h) hs))
        \<le> length (filter (\<lambda>h. projectId h = q \<and> state h \<noteq> Absent) hs)" for hs
    by (induction hs) auto
  then show ?thesis by (simp add: live_handles_def set_state_def)
qed

lemma live_handles_start_begin:
  assumes "start_begin reachable p c = Inr c1"
  shows "length (live_handles q c1) \<le> max 1 (length (live_handles q c))"
proof -
  from assms have absent: "recorded p c = Absent"
    and c1: "c1 = c\<lparr>handles :=
                    \<lparr>projectId = p, runtimeId = container_name p, state = Building\<rparr> # handles c\<rparr>"
    by (auto simp: start_begin_def split: if_splits)
  from absent have "live_handles p c = []" by (simp add: recorded_Absent_iff)
  then show ?thesis
    unfolding c1 by (cases "q = p") (auto simp: live_handles_def)
qed

lemma live_handles_start_finish:
  "length (live_handles q (snd (start_finish outcome p c))) \<le> length (live_handles q c)"
proof -
  have same: "live_handles q (c'\<lparr>engine := e, buffers := b\<rparr>) = live_handles q c'" for c' e b
    by (simp add: live_handles_def)
  show ?thesis
    using live_handles_set_state [of q p Failed c] live_handles_set_state [of q p Running c]
    by (cases outcome)
       (auto simp: start_finish_def same split: sum.splits prod.splits)
qed

lemma live_handles_start:
  "length (live_handles q (snd (start reachable outcome p c))) \<le> max 1 (length (live_handles q c))"
proof (cases "start_begin reachable p c")
  case (Inl e)
  then show ?thesis by (simp add: start_def)
next
  case (Inr c1)
  have "length (live_handles q (snd (start_finish outcome p c1))) \<le> length (live_handles q c1)"
    by (rule live_handles_start_finish)
  also have "\<dots> \<le> max 1 (length (live_handles q c))"
    using Inr by (rule live_handles_start_begin)
  finally show ?thesis using Inr by (simp add: start_def)
qed

lemma live_handles_stop:
  "length (live_handles q (snd (stop reachable p c))) \<le> length (live_handles q c)"
proof -
  have "length (filter (\<lambda>h. projectId h = q \<and> state h \<noteq> Absent)
          (map (\<lambda>h. if projectId h = p then h\<lparr>state := Absent\<rparr> else h) hs))
        \<le> length (filter (\<lambda>h. projectId h = q \<and> state h \<noteq> Absent) hs)" for hs
    by (induction hs) auto
  then show ?thesis by (simp add: live_handles_def stop_def Let_def)
qed

lemma live_handles_serve:
  "length (live_handles q (serve r c)) \<le> max 1 (length (live_handles q c))"
proof (cases r)
  case (Start reachable outcome p)
  then show ?thesis using live_handles_start [of q reachable outcome p c] by simp
next
  case (BeginStart reachable p)
  then show ?thesis
    using live_handles_start_begin [of reachable p c _ q]
    by (cases "start_begin reachable p c") simp_all
next
  case (FinishStart outcome p)
  then show ?thesis using live_handles_start_finish [of q outcome p c] by auto
next
  case (Stop reachable p)
  then show ?thesis using live_handles_stop [of q reachable p c] by simp
next
  case (Restart reachable outcome p)
  have "length (live_handles q (snd (restart reachable outcome p c)))
          \<le> max 1 (length (live_handles q (snd (stop reachable p c))))"
    unfolding restart_def by (rule live_handles_start)
  also have "\<dots> \<le> max 1 (length (live_handles q c))"
    using live_handles_stop [of q reachable p c] by simp
  finally show ?thesis using Restart by simp
next
  case (GetStatus reachable p)
  then show ?thesis
    using live_handles_set_state [of q p Absent c] by (auto simp: getStatus_def)
next
  case (ContainerExits p)
  then show ?thesis by (simp add: container_exits_def live_handles_def)
next
  case (ContainerWrites p line)
  then show ?thesis
    by (simp add: container_writes_def live_handles_def split: option.splits)
qed

lemma live_handles_serve_all:
  "length (live_handles q c) \<le> 1 \<Longrightarrow> length (live_handles q (serve_all rs c)) \<le> 1"
proof (induction rs arbitrary: c)
  case Nil
  then show ?case by simp
next
  case (Cons r rs)
  from Cons.prems live_handles_serve [of q r c]
  have "length (live_handles q (serve r c)) \<le> 1" by simp
  then show ?case using Cons.IH by simp
qed

lemma distinct_engine_serve: "distinct (engine c) \<Longrightarrow> distinct (engine (serve r c))"
proof (cases r)
  case (Start reachable outcome p)
  assume "distinct (engine c)"
  then show ?thesis using Start
    by (cases outcome)
       (auto simp: start_def start_begin_def start_finish_def set_state_def adapter_run_def
          split: sum.splits if_splits)
next
  case (BeginStart reachable p)
  assume "distinct (engine c)"
  then show ?thesis using BeginStart
    by (auto simp: start_begin_def)
next
  case (FinishStart outcome p)
  assume "distinct (engine c)"
  then show ?thesis using FinishStart
    by (cases outcome)
       (auto simp: start_finish_def set_state_def adapter_run_def split: sum.splits if_splits)
next
  case (Stop reachable p)
  assume "distinct (engine c)"
  then show ?thesis using Stop
    by (auto simp: stop_def adapter_stop_def Let_def distinct_removeAll)
next
  case (Restart reachable outcome p)
  assume "distinct (engine c)"
  then have "distinct (engine (snd (stop reachable p c)))"
    by (auto simp: stop_def adapter_stop_def Let_def distinct_removeAll)
  then show ?thesis using Restart
    by (cases outcome)
       (auto simp: restart_def start_def start_begin_def start_finish_def set_state_def
          adapter_run_def split: sum.splits if_splits)
next
  case (GetStatus reachable p)
  assume "distinct (engine c)"
  then show ?thesis using GetStatus by (simp add: getStatus_def set_state_def)
next
  case (ContainerExits p)
  assume "distinct (engine c)"
  then show ?thesis using ContainerExits by (simp add: container_exits_def distinct_removeAll)
next
  case (ContainerWrites p line)
  assume "distinct (engine c)"
  then show ?thesis using ContainerWrites
    by (simp add: container_writes_def split: option.splits)
qed

lemma distinct_engine_serve_all:
  "distinct (engine c) \<Longrightarrow> distinct (engine (serve_all rs c))"
  by (induction rs arbitrary: c) (simp_all add: distinct_engine_serve)

lemma count_list_distinct: "distinct xs \<Longrightarrow> count_list xs x \<le> 1"
  by (induction xs) (auto simp: count_list_0_iff)

text \<open>
  Claim C1: after any sequence of start, stop, restart and status steps and of events
  of the containers, for any projects and in any order, a start taken as one step or
  as two halves with other steps in between, every project has at most one handle in a
  state other than \<^verbatim>\<open>absent\<close>, and the engine holds at most one container of
  the project; the same holds at the instant within a start at which the project is
  \<^verbatim>\<open>building\<close>. A start of a project whose recorded state is not
  \<^verbatim>\<open>absent\<close>, in particular of a running project, fails with
  \<^verbatim>\<open>AlreadyRunningError\<close> and leaves the controller as it is: no handle and no
  container is added. The editor page, for its part, renders the stop button and no
  start button while it records the bot as running.
\<close>

theorem one_live_handle_per_project:
  "length (live_handles p (serve_all rs empty_controller)) \<le> 1
   \<and> count_list (engine (serve_all rs empty_controller)) (container_name p) \<le> 1
   \<and> (\<forall>c1. start_begin reachable q (serve_all rs empty_controller) = Inr c1 \<longrightarrow>
         length (live_handles p c1) \<le> 1)
   \<and> (recorded q c \<noteq> Absent \<longrightarrow>
         start reachable outcome q c = (Inl AlreadyRunningError, c))
   \<and> (recorded q c = Running \<longrightarrow>
         fst (start reachable outcome q c) = Inl AlreadyRunningError
         \<and> engine (snd (start reachable outcome q c)) = engine c
         \<and> handles (snd (start reachable outcome q c)) = handles c)
   \<and> (botRunning s \<longrightarrow> render_lifecycle_button s = StopButton (isStopping s))"
proof -
  have init: "length (live_handles p empty_controller) \<le> 1"
    by (simp add: live_handles_def empty_controller_def)
  have a: "length (live_handles p (serve_all rs empty_controller)) \<le> 1"
    using init by (rule live_handles_serve_all)
  have "distinct (engine (serve_all rs empty_controller))"
    by (rule distinct_engine_serve_all) (simp add: empty_controller_def)
  then have b: "count_list (engine (serve_all rs empty_controller)) (container_name p) \<le> 1"
    by (rule count_list_distinct)
  have c: "\<forall>c1. start_begin reachable q (serve_all rs empty_controller) = Inr c1 \<longrightarrow>
         length (live_handles p c1) \<le> 1"
  proof (intro allI impI)
    fix c1
    assume "start_begin reachable q (serve_all rs empty_controller) = Inr c1"
    from live_handles_start_begin [OF this, of p] a show "length (live_handles p c1) \<le> 1"
      by simp
  qed
  have d: "recorded q c \<noteq> Absent \<longrightarrow>
         start reachable outcome q c = (Inl AlreadyRunningError, c)"
    by (simp add: start_def start_begin_def)
  have e: "recorded q c = Running \<longrightarrow>
         fst (start reachable outcome q c) = Inl AlreadyRunningError
         \<and> engine (snd (start reachable outcome q c)) = engine c
         \<and> handles (snd (start reachable outcome q c)) = handles c"
    by (simp add: start_def start_begin_def)
  have f: "botRunning s \<longrightarrow> render_lifecycle_button s = StopButton (isStopping s)"
    by (simp add: render_lifecycle_button_def)
  show ?thesis
    by (intro conjI a b c d e f)
qed

theorem one_live_handle_per_project_witness:
  "recorded ''proj-1'' (serve_all [Start True Succeeds ''proj-1''] empty_controller) = Running
   \<and> start True Succeeds ''proj-1'' (serve_all [Start True Succeeds ''proj-1''] empty_controller)
       = (Inl AlreadyRunningError, serve_all [Start True Succeeds ''proj-1''] empty_controller)
   \<and> engine (serve_all [Start True Succeeds ''proj-1'', Start True Succeeds ''proj-1'']
        empty_controller) = [''bot-proj-1'']
   \<and> start_begin True ''proj-1'' (serve_all [] empty_controller)
       = Inr \<lparr>handles = [\<lparr>projectId = ''proj-1'', runtimeId = ''bot-proj-1'', state = Building\<rparr>],
              engine = [], buffers = Map.empty\<rparr>
   \<and> length (live_handles ''proj-1''
        \<lparr>handles = [\<lparr>projectId = ''proj-1'', runtimeId = ''bot-proj-1'', state = Building\<rparr>],
         engine = [], buffers = Map.empty\<rparr>) \<le> 1"
proof -
  let ?c = "serve_all [Start True Succeeds ''proj-1''] empty_controller"
  let ?c1 = "\<lparr>handles = [\<lparr>projectId = ''proj-1'', runtimeId = ''bot-proj-1'', state = Building\<rparr>],
              engine = [], buffers = Map.empty\<rparr>"
  have value_c: "?c = \<lparr>handles = [\<lparr>projectId = ''proj-1'', runtimeId = ''bot-proj-1'', state = Running\<rparr>],
              engine = [''bot-proj-1''], buffers = [''proj-1'' \<mapsto> []]\<rparr>"
    by (simp add: start_def start_begin_def start_finish_def adapter_run_def set_state_def
          recorded_def live_handles_def container_name_def empty_controller_def)
  have running: "recorded ''proj-1'' ?c = Running"
    unfolding value_c by (simp add: recorded_def live_handles_def)
  then have live: "recorded ''proj-1'' ?c \<noteq> Absent"
    by simp
  have began: "start_begin True ''proj-1'' (serve_all [] empty_controller) = Inr ?c1"
    by (simp add: start_begin_def recorded_def live_handles_def container_name_def
          empty_controller_def)
  note second = one_live_handle_per_project
      [where q = "''proj-1''" and c = ?c and reachable = True and outcome = Succeeds,
       THEN conjunct2, THEN conjunct2, THEN conjunct2, THEN conjunct1, THEN mp, OF live]
  note building = one_live_handle_per_project
      [where q = "''proj-1''" and p = "''proj-1''" and rs = "[]" and reachable = True,
       THEN conjunct2, THEN conjunct2, THEN conjunct1, THEN spec, THEN mp, OF began]
  have containers: "engine (serve_all [Start True Succeeds ''proj-1'', Start True Succeeds ''proj-1'']
        empty_controller) = [''bot-proj-1'']"
  proof -
    have "serve_all [Start True Succeeds ''proj-1'', Start True Succeeds ''proj-1''] empty_controller
        = snd (start True Succeeds ''proj-1'' ?c)"
      by simp
    also have "\<dots> = ?c"
      by (simp only: second snd_conv)
    finally show ?thesis
      by (simp only: value_c) simp
  qed
  show ?thesis
    by (intro conjI running second containers began building)
qed




lemma stop_twice:
  "snd (stop reachable p (snd (stop reachable p c))) = snd (stop reachable p c)"
proof -
  have "map (\<lambda>h. if projectId h = p then h\<lparr>state := Absent\<rparr> else h)
          (map (\<lambda>h. if projectId h = p then h\<lparr>state := Absent\<rparr> else h) hs)
        = map (\<lambda>h. if projectId h = p then h\<lparr>state := Absent\<rparr> else h) hs" for hs
    by (induction hs) auto
  then show ?thesis
    by (simp add: stop_def adapter_stop_def Let_def)
qed

lemma recorded_stop: "recorded p (snd (stop reachable p c)) = Absent"
proof -
  have "filter (\<lambda>h. projectId h = p \<and> state h \<noteq> Absent)
          (map (\<lambda>h. if projectId h = p then h\<lparr>state := Absent\<rparr> else h) hs) = []" for hs
    by (induction hs) auto
  then have "live_handles p (snd (stop reachable p c)) = []"
    by (simp add: live_handles_def stop_def Let_def)
  then show ?thesis by (simp add: recorded_Absent_iff)
qed

text \<open>
  Claim C7: \<^verbatim>\<open>stop\<close> is idempotent. It returns success in every state of the
  controller, whether or not the engine can be reached, also when it is called a second
  time and when the project never started; after it the recorded state is
  \<^verbatim>\<open>absent\<close>, and a second stop in a row changes nothing. On a controller that has
  recorded nothing it is a success that changes nothing. The adapter's stop of an
  already-stopped or unknown container is a success too.
\<close>

theorem stop_idempotent:
  "fst (stop reachable p c) = Inr ()
   \<and> fst (stop reachable' p (snd (stop reachable p c))) = Inr ()
   \<and> snd (stop reachable p (snd (stop reachable p c))) = snd (stop reachable p c)
   \<and> recorded p (snd (stop reachable p c)) = Absent
   \<and> stop True p empty_controller = (Inr (), empty_controller)
   \<and> adapter_stop True rid containers = Inr (removeAll rid containers)
   \<and> adapter_stop True rid (removeAll rid containers) = Inr (removeAll rid containers)"
proof -
  have a: "fst (stop r p c') = Inr ()" for r c'
    by (simp add: stop_def Let_def)
  have b: "stop True p empty_controller = (Inr (), empty_controller)"
    by (simp add: stop_def adapter_stop_def empty_controller_def Let_def)
  have c: "adapter_stop True rid containers = Inr (removeAll rid containers)"
    by (simp add: adapter_stop_def)
  have d: "adapter_stop True rid (removeAll rid containers) = Inr (removeAll rid containers)"
    by (simp add: adapter_stop_def)
  show ?thesis
    by (intro conjI a b c d stop_twice recorded_stop)
qed

end
